theory Spec2Isabelle
  imports Main "HOL-Library.Word" "HOL-Library.Product_Lexorder" "HOL-Library.Multiset"
begin

unbundle bit_operations_syntax

section \<open>Strings of the Python runtime\<close>

text \<open>
  The program is \<^verbatim>\<open>examples/blocklist_manager.py\<close>. Its strings are modelled as
  \<open>string\<close>, a character standing for a code point below 256. The functions of this
  section are the methods of \<^verbatim>\<open>str\<close> and the conversions that the program and the
  \<^verbatim>\<open>ipaddress\<close> module call.
\<close>

definition ord :: "char \<Rightarrow> nat" where
  "ord c = of_char c"

definition isspace :: "char \<Rightarrow> bool" where
  "isspace c = (ord c \<in> {9, 10, 11, 12, 13, 28, 29, 30, 31, 32, 133, 160})"

definition strip :: "string \<Rightarrow> string" where
  "strip s = rev (dropWhile isspace (rev (dropWhile isspace s)))"

fun startswith :: "string \<Rightarrow> string \<Rightarrow> bool" where
  "startswith s [] = True"
| "startswith [] (p # ps) = False"
| "startswith (c # cs) (p # ps) = (c = p \<and> startswith cs ps)"

text \<open>\<^verbatim>\<open>s.split(sep)\<close> for a separator of one character: never the empty list.\<close>

fun split :: "char \<Rightarrow> string \<Rightarrow> string list" where
  "split sep [] = [[]]"
| "split sep (c # cs) =
     (if c = sep then [] # split sep cs
      else (case split sep cs of [] \<Rightarrow> [[c]] | p # ps \<Rightarrow> (c # p) # ps))"

definition isdigit :: "char \<Rightarrow> bool" where
  "isdigit c = (48 \<le> ord c \<and> ord c \<le> 57)"

text \<open>\<^verbatim>\<open>s.isascii() and s.isdigit()\<close>: false on the empty string.\<close>

definition isascii_isdigit :: "string \<Rightarrow> bool" where
  "isascii_isdigit s = (s \<noteq> [] \<and> list_all isdigit s)"

text \<open>\<^verbatim>\<open>int(s, 10)\<close> on a string of decimal digits.\<close>

definition int10 :: "string \<Rightarrow> nat" where
  "int10 s = foldl (\<lambda>a c. 10 * a + (ord c - 48)) 0 s"

text \<open>The digit of a value below 16, in lower case.\<close>

definition digit_char :: "nat \<Rightarrow> char" where
  "digit_char d = ''0123456789abcdef'' ! d"

text \<open>\<^verbatim>\<open>str(n)\<close> of a non-negative integer, and \<^verbatim>\<open>'%x' % n\<close>.\<close>

fun str_nat :: "nat \<Rightarrow> string" where
  "str_nat n = (if n < 10 then [digit_char n] else str_nat (n div 10) @ [digit_char (n mod 10)])"

fun hex_nat :: "nat \<Rightarrow> string" where
  "hex_nat n = (if n < 16 then [digit_char n] else hex_nat (n div 16) @ [digit_char (n mod 16)])"

declare str_nat.simps [simp del] hex_nat.simps [simp del]

definition join :: "string \<Rightarrow> string list \<Rightarrow> string" where
  "join sep xs = (case xs of [] \<Rightarrow> [] | y # ys \<Rightarrow> y @ concat (map (\<lambda>z. sep @ z) ys))"

text \<open>
  \<^verbatim>\<open>repr(s)\<close>: the quote is the double quote when \<open>s\<close> has a single quote and no
  double quote; the quote and the backslash are escaped, tab, newline and carriage
  return have their letters, any other unprintable code point is \<^verbatim>\<open>\xNN\<close>.
\<close>

definition isprintable :: "char \<Rightarrow> bool" where
  "isprintable c = ((32 \<le> ord c \<and> ord c \<le> 126) \<or> (161 \<le> ord c \<and> ord c \<noteq> 173))"

definition hex2 :: "nat \<Rightarrow> string" where
  "hex2 n = [digit_char (n div 16), digit_char (n mod 16)]"

definition repr_char :: "char \<Rightarrow> char \<Rightarrow> string" where
  "repr_char quote c =
     (if c = quote \<or> c = CHR 0x5C then [CHR 0x5C, c]
      else if c = CHR 0x09 then [CHR 0x5C, CHR ''t'']
      else if c = CHR 0x0A then [CHR 0x5C, CHR ''n'']
      else if c = CHR 0x0D then [CHR 0x5C, CHR ''r'']
      else if isprintable c then [c]
      else [CHR 0x5C, CHR ''x''] @ hex2 (ord c))"

definition repr :: "string \<Rightarrow> string" where
  "repr s =
     (let quote = (if CHR 0x27 \<in> set s \<and> CHR 0x22 \<notin> set s then CHR 0x22 else CHR 0x27)
      in quote # concat (map (repr_char quote) s) @ [quote])"

section \<open>The \<^verbatim>\<open>ipaddress\<close> module\<close>

text \<open>
  The program parses, compares and prints addresses through Python's \<^verbatim>\<open>ipaddress\<close>
  module. The definitions below follow that module's functions, under their names.
  An address is its integer \<^verbatim>\<open>_ip\<close>, which the module keeps within 32 or 128 bits;
  a network is its \<^verbatim>\<open>network_address\<close> and \<^verbatim>\<open>_prefixlen\<close>, the \<^verbatim>\<open>netmask\<close> being
  \<open>ip_int_from_prefix\<close> of the prefix length. An IPv6 address has, next to its integer,
  its zone identifier \<^verbatim>\<open>_scope_id\<close> (the text after \<^verbatim>\<open>%\<close>, or \<^verbatim>\<open>None\<close>), which takes
  part in \<^verbatim>\<open>==\<close> and in \<^verbatim>\<open>str\<close> and in nothing else; an IPv6 network has the zone
  identifier of its \<^verbatim>\<open>network_address\<close>. The module is the one of Python 3.11.

  The module raises \<^verbatim>\<open>AddressValueError\<close> and \<^verbatim>\<open>NetmaskValueError\<close>, both subclasses
  of \<^verbatim>\<open>ValueError\<close>; \<^verbatim>\<open>ip_address\<close> and \<^verbatim>\<open>ip_network\<close> catch the two and raise a
  \<^verbatim>\<open>ValueError\<close> of their own. The messages of the two subclasses are never seen by
  the program and are left out; a helper that can only raise one of them returns
  \<open>None\<close> for it.
\<close>

datatype exn = AddressValueError | NetmaskValueError | ValueError string | TypeError | OSError

datatype ip = IPv4Address "32 word" | IPv6Address "128 word" "string option"

datatype network = IPv4Network "32 word" nat | IPv6Network "128 word" "string option" nat

datatype mask_arg = MaskInt nat | MaskStr string

definition ALL_ONES :: "'a::len word" where
  "ALL_ONES = - 1"

definition ip_int_from_prefix :: "nat \<Rightarrow> 'a::len word" where
  "ip_int_from_prefix prefixlen = ALL_ONES XOR drop_bit prefixlen ALL_ONES"

fun bit_length :: "nat \<Rightarrow> nat" where
  "bit_length n = (if n = 0 then 0 else Suc (bit_length (n div 2)))"

declare bit_length.simps [simp del]

definition count_righthand_zero_bits :: "int \<Rightarrow> nat \<Rightarrow> nat" where
  "count_righthand_zero_bits number bits =
     (if number = 0 then bits
      else min bits (bit_length (nat (NOT number AND (number - 1)))))"

definition prefix_from_ip_int :: "nat \<Rightarrow> int \<Rightarrow> nat option" where
  "prefix_from_ip_int max_prefixlen ip_int =
     (let trailing_zeroes = count_righthand_zero_bits ip_int max_prefixlen;
          prefixlen = max_prefixlen - trailing_zeroes;
          leading_ones = drop_bit trailing_zeroes ip_int;
          all_ones = push_bit prefixlen 1 - 1
      in if leading_ones \<noteq> all_ones then None else Some prefixlen)"

text \<open>
  \<^verbatim>\<open>_prefix_from_prefix_string\<close>. Its \<^verbatim>\<open>int(prefixlen_str)\<close> raises a \<^verbatim>\<open>ValueError\<close>, which
  the function turns into its own error, on more than \<^verbatim>\<open>sys.int_info.default_max_str_digits\<close>
  digits, leading zeros counted.
\<close>

definition max_str_digits :: nat where
  "max_str_digits = 4300"

definition prefix_from_prefix_string :: "nat \<Rightarrow> string \<Rightarrow> nat option" where
  "prefix_from_prefix_string max_prefixlen prefixlen_str =
     (if \<not> isascii_isdigit prefixlen_str then None
      else if length prefixlen_str > max_str_digits then None
      else let prefixlen = int10 prefixlen_str
           in if \<not> prefixlen \<le> max_prefixlen then None else Some prefixlen)"

definition split_optional_netmask :: "string \<Rightarrow> string list option" where
  "split_optional_netmask address =
     (let addr = split CHR ''/'' address in if length addr > 2 then None else Some addr)"

definition split_addr_prefix :: "nat \<Rightarrow> string \<Rightarrow> (string \<times> mask_arg) option" where
  "split_addr_prefix max_prefixlen address =
     (case split_optional_netmask address of
        None \<Rightarrow> None
      | Some parts \<Rightarrow>
          if length parts > 1 then Some (parts ! 0, MaskStr (parts ! 1))
          else Some (parts ! 0, MaskInt max_prefixlen))"

subsection \<open>IPv4 text\<close>

definition parse_octet :: "string \<Rightarrow> nat option" where
  "parse_octet octet_str =
     (if octet_str = [] then None
      else if \<not> isascii_isdigit octet_str then None
      else if length octet_str > 3 then None
      else if octet_str \<noteq> ''0'' \<and> hd octet_str = CHR ''0'' then None
      else let octet_int = int10 octet_str
           in if octet_int > 255 then None else Some octet_int)"

definition from_bytes_big :: "nat list \<Rightarrow> nat" where
  "from_bytes_big bs = foldl (\<lambda>a b. 256 * a + b) 0 bs"

definition ip_int_from_string4 :: "string \<Rightarrow> 32 word option" where
  "ip_int_from_string4 ip_str =
     (if ip_str = [] then None
      else let octets = split CHR ''.'' ip_str
           in if length octets \<noteq> 4 then None
              else (case those (map parse_octet octets) of
                      None \<Rightarrow> None
                    | Some bs \<Rightarrow> Some (of_nat (from_bytes_big bs))))"

text \<open>\<^verbatim>\<open>IPv4Address(address)\<close> on a string.\<close>

definition IPv4Address_init :: "string \<Rightarrow> 32 word option" where
  "IPv4Address_init addr_str =
     (if CHR ''/'' \<in> set addr_str then None else ip_int_from_string4 addr_str)"

definition prefix_from_ip_string4 :: "string \<Rightarrow> nat option" where
  "prefix_from_ip_string4 ip_str =
     (case ip_int_from_string4 ip_str of
        None \<Rightarrow> None
      | Some ip_int \<Rightarrow>
          (case prefix_from_ip_int 32 (uint ip_int) of
             Some prefixlen \<Rightarrow> Some prefixlen
           | None \<Rightarrow> prefix_from_ip_int 32 (uint (ip_int XOR ALL_ONES))))"

definition make_netmask4 :: "mask_arg \<Rightarrow> nat option" where
  "make_netmask4 arg =
     (case arg of
        MaskInt prefixlen \<Rightarrow> if \<not> prefixlen \<le> 32 then None else Some prefixlen
      | MaskStr s \<Rightarrow>
          (case prefix_from_prefix_string 32 s of
             Some prefixlen \<Rightarrow> Some prefixlen
           | None \<Rightarrow> prefix_from_ip_string4 s))"

text \<open>\<^verbatim>\<open>ip_int.to_bytes(4, 'big')\<close> and the dotted form.\<close>

definition to_bytes4 :: "32 word \<Rightarrow> nat list" where
  "to_bytes4 ip_int =
     (let n = unat ip_int
      in [n div 16777216, n div 65536 mod 256, n div 256 mod 256, n mod 256])"

definition string_from_ip_int4 :: "32 word \<Rightarrow> string" where
  "string_from_ip_int4 ip_int = join ''.'' (map str_nat (to_bytes4 ip_int))"

subsection \<open>IPv6 text\<close>

definition ishex :: "char \<Rightarrow> bool" where
  "ishex c = (isdigit c \<or> (97 \<le> ord c \<and> ord c \<le> 102) \<or> (65 \<le> ord c \<and> ord c \<le> 70))"

definition hex_value :: "char \<Rightarrow> nat" where
  "hex_value c =
     (if isdigit c then ord c - 48 else if 97 \<le> ord c then ord c - 87 else ord c - 55)"

text \<open>\<^verbatim>\<open>int(s, 16)\<close> on a string of hexadecimal digits: the empty string is an error.\<close>

definition int16 :: "string \<Rightarrow> nat option" where
  "int16 s = (if s = [] then None else Some (foldl (\<lambda>a c. 16 * a + hex_value c) 0 s))"

definition parse_hextet :: "string \<Rightarrow> nat option" where
  "parse_hextet hextet_str =
     (if \<not> list_all ishex hextet_str then None
      else if length hextet_str > 4 then None
      else int16 hextet_str)"

text \<open>
  The two loops of \<^verbatim>\<open>_ip_int_from_string\<close> that shift the hextets into the integer:
  \<^verbatim>\<open>ip_int <<= 16; ip_int |= _parse_hextet(part)\<close> for each part.
\<close>

fun shift_hextets :: "128 word \<Rightarrow> string list \<Rightarrow> 128 word option" where
  "shift_hextets ip_int [] = Some ip_int"
| "shift_hextets ip_int (p # ps) =
     (case parse_hextet p of
        None \<Rightarrow> None
      | Some h \<Rightarrow> shift_hextets (push_bit 16 ip_int OR of_nat h) ps)"

text \<open>
  \<^verbatim>\<open>_ip_int_from_string\<close> of version 6, in its three stages: an IPv4-style last part
  is replaced by two hextets; the place of \<^verbatim>\<open>::\<close> gives the number of parts above
  it, below it and skipped; the hextets are parsed.
\<close>

definition ipv4_suffix :: "string list \<Rightarrow> string list option" where
  "ipv4_suffix parts =
     (if CHR ''.'' \<in> set (last parts) then
        (case IPv4Address_init (last parts) of
           None \<Rightarrow> None
         | Some ipv4_int \<Rightarrow>
             Some (butlast parts @
                   [hex_nat (unat (drop_bit 16 ipv4_int AND 0xFFFF)),
                    hex_nat (unat (ipv4_int AND 0xFFFF))]))
      else Some parts)"

definition part_counts :: "string list \<Rightarrow> (nat \<times> nat \<times> nat) option" where
  "part_counts parts =
     (let skips = filter (\<lambda>i. parts ! i = []) [1 ..< length parts - 1]
      in if length skips > 1 then None
         else if skips \<noteq> [] then
           (let skip_index = last skips;
                hi0 = skip_index;
                lo0 = length parts - skip_index - 1
            in if parts ! 0 = [] \<and> hi0 - 1 \<noteq> 0 then None
               else if last parts = [] \<and> lo0 - 1 \<noteq> 0 then None
               else (let parts_hi = (if parts ! 0 = [] then hi0 - 1 else hi0);
                         parts_lo = (if last parts = [] then lo0 - 1 else lo0)
                     in if 8 < parts_hi + parts_lo + 1 then None
                        else Some (parts_hi, parts_lo, 8 - (parts_hi + parts_lo))))
         else if length parts \<noteq> 8 then None
         else if parts ! 0 = [] then None
         else if last parts = [] then None
         else Some (length parts, 0, 0))"

definition parse_parts :: "string list \<Rightarrow> nat \<times> nat \<times> nat \<Rightarrow> 128 word option" where
  "parse_parts parts c =
     (case c of (parts_hi, parts_lo, parts_skipped) \<Rightarrow>
        (case shift_hextets 0 (take parts_hi parts) of
           None \<Rightarrow> None
         | Some hi \<Rightarrow>
             shift_hextets (push_bit (16 * parts_skipped) hi)
               (drop (length parts - parts_lo) parts)))"

definition ip_int_from_string6 :: "string \<Rightarrow> 128 word option" where
  "ip_int_from_string6 ip_str =
     (if ip_str = [] then None
      else if length (split CHR '':'' ip_str) < 3 then None
      else (case ipv4_suffix (split CHR '':'' ip_str) of
              None \<Rightarrow> None
            | Some parts \<Rightarrow>
                if length parts > 9 then None
                else (case part_counts parts of
                        None \<Rightarrow> None
                      | Some c \<Rightarrow> parse_parts parts c)))"

text \<open>
  \<^verbatim>\<open>_split_scope_id\<close>: \<^verbatim>\<open>ip_str.partition('%')\<close> cuts at the first \<^verbatim>\<open>%\<close>; without one
  the zone identifier is \<^verbatim>\<open>None\<close>; an empty one, or one with another \<^verbatim>\<open>%\<close>, is an error.
\<close>

definition split_scope_id :: "string \<Rightarrow> (string \<times> string option) option" where
  "split_scope_id ip_str =
     (let addr = takeWhile (\<lambda>c. c \<noteq> CHR ''%'') ip_str;
          rest = dropWhile (\<lambda>c. c \<noteq> CHR ''%'') ip_str
      in if rest = [] then Some (addr, None)
         else (let scope_id = tl rest
               in if scope_id = [] \<or> CHR ''%'' \<in> set scope_id then None
                  else Some (addr, Some scope_id)))"

text \<open>\<^verbatim>\<open>IPv6Address(address)\<close> on a string: the integer and the zone identifier.\<close>

definition IPv6Address_init :: "string \<Rightarrow> (128 word \<times> string option) option" where
  "IPv6Address_init addr_str =
     (if CHR ''/'' \<in> set addr_str then None
      else (case split_scope_id addr_str of
              None \<Rightarrow> None
            | Some (addr, scope_id) \<Rightarrow>
                (case ip_int_from_string6 addr of
                   None \<Rightarrow> None
                 | Some ip_int \<Rightarrow> Some (ip_int, scope_id))))"

definition make_netmask6 :: "mask_arg \<Rightarrow> nat option" where
  "make_netmask6 arg =
     (case arg of
        MaskInt prefixlen \<Rightarrow> if \<not> prefixlen \<le> 128 then None else Some prefixlen
      | MaskStr s \<Rightarrow> prefix_from_prefix_string 128 s)"

text \<open>
  \<^verbatim>\<open>_compress_hextets\<close>: the loop keeps (best start, best length, current start,
  current length), a start of \<open>-1\<close> meaning none; the longest run of \<^verbatim>\<open>'0'\<close> hextets,
  if longer than one, is replaced by an empty string.
\<close>

definition compress_step :: "int \<times> nat \<times> int \<times> nat \<Rightarrow> nat \<times> string \<Rightarrow> int \<times> nat \<times> int \<times> nat" where
  "compress_step st ih =
     (case st of (best_doublecolon_start, best_doublecolon_len, doublecolon_start, doublecolon_len) \<Rightarrow>
      case ih of (index, hextet) \<Rightarrow>
        if hextet = ''0'' then
          (let len' = doublecolon_len + 1;
               start' = (if doublecolon_start = - 1 then int index else doublecolon_start)
           in if len' > best_doublecolon_len then (start', len', start', len')
              else (best_doublecolon_start, best_doublecolon_len, start', len'))
        else (best_doublecolon_start, best_doublecolon_len, - 1, 0))"

definition compress_hextets :: "string list \<Rightarrow> string list" where
  "compress_hextets hextets =
     (case foldl compress_step (- 1, 0, - 1, 0) (enumerate 0 hextets) of
        (best_doublecolon_start, best_doublecolon_len, _, _) \<Rightarrow>
          if best_doublecolon_len > 1 then
            (let s = nat best_doublecolon_start;
                 best_doublecolon_end = s + best_doublecolon_len;
                 h1 = (if best_doublecolon_end = length hextets then hextets @ [[]] else hextets);
                 h2 = take s h1 @ [[]] @ drop best_doublecolon_end h1
             in if s = 0 then [] # h2 else h2)
          else hextets)"

text \<open>\<^verbatim>\<open>'%032x' % ip_int\<close>, cut into eight groups of four digits.\<close>

definition hex032 :: "nat \<Rightarrow> string" where
  "hex032 n = (let h = hex_nat n in replicate (32 - length h) CHR ''0'' @ h)"

definition string_from_ip_int6 :: "128 word \<Rightarrow> string" where
  "string_from_ip_int6 ip_int =
     (let hex_str = hex032 (unat ip_int);
          hextets = map (\<lambda>x. hex_nat (the (int16 (take 4 (drop x hex_str)))))
                        [0, 4, 8, 12, 16, 20, 24, 28]
      in join '':'' (compress_hextets hextets))"

subsection \<open>Addresses and networks\<close>

text \<open>
  \<^verbatim>\<open>str(address)\<close>: for version 6,
  \<^verbatim>\<open>ip_str + '%' + self._scope_id if self._scope_id else ip_str\<close>.
\<close>

definition str_ip :: "ip \<Rightarrow> string" where
  "str_ip a =
     (case a of
        IPv4Address i \<Rightarrow> string_from_ip_int4 i
      | IPv6Address i scope_id \<Rightarrow>
          (case scope_id of
             None \<Rightarrow> string_from_ip_int6 i
           | Some s \<Rightarrow> if s \<noteq> [] then string_from_ip_int6 i @ ''%'' @ s
                       else string_from_ip_int6 i))"

definition version :: "network \<Rightarrow> nat" where
  "version n = (case n of IPv4Network _ _ \<Rightarrow> 4 | IPv6Network _ _ _ \<Rightarrow> 6)"

definition ip_version :: "ip \<Rightarrow> nat" where
  "ip_version a = (case a of IPv4Address _ \<Rightarrow> 4 | IPv6Address _ _ \<Rightarrow> 6)"

definition prefixlen :: "network \<Rightarrow> nat" where
  "prefixlen n = (case n of IPv4Network _ p \<Rightarrow> p | IPv6Network _ _ p \<Rightarrow> p)"

definition network_address :: "network \<Rightarrow> ip" where
  "network_address n = (case n of IPv4Network a _ \<Rightarrow> IPv4Address a
                                | IPv6Network a scope_id _ \<Rightarrow> IPv6Address a scope_id)"

text \<open>
  The \<^verbatim>\<open>netmask\<close>, and the \<^verbatim>\<open>hostmask\<close> and \<^verbatim>\<open>broadcast_address\<close> of a network, are
  addresses built from an integer: they have no zone identifier.
\<close>

definition netmask :: "network \<Rightarrow> ip" where
  "netmask n = (case n of IPv4Network _ p \<Rightarrow> IPv4Address (ip_int_from_prefix p)
                        | IPv6Network _ _ p \<Rightarrow> IPv6Address (ip_int_from_prefix p) None)"

definition broadcast_address :: "network \<Rightarrow> ip" where
  "broadcast_address n =
     (case n of
        IPv4Network a p \<Rightarrow> IPv4Address (a OR (ip_int_from_prefix p XOR ALL_ONES))
      | IPv6Network a _ p \<Rightarrow> IPv6Address (a OR (ip_int_from_prefix p XOR ALL_ONES)) None)"

text \<open>\<^verbatim>\<open>str(network)\<close> is \<^verbatim>\<open>'%s/%d' % (network_address, prefixlen)\<close>.\<close>

definition str_network :: "network \<Rightarrow> string" where
  "str_network n = str_ip (network_address n) @ ''/'' @ str_nat (prefixlen n)"

text \<open>
  \<^verbatim>\<open>other in network\<close> for an address \<open>other\<close>: on the integers, whatever the zone
  identifiers.
\<close>

definition contains :: "network \<Rightarrow> ip \<Rightarrow> bool" where
  "contains n other =
     (case (n, other) of
        (IPv4Network a p, IPv4Address i) \<Rightarrow> i AND ip_int_from_prefix p = a
      | (IPv6Network a _ p, IPv6Address i _) \<Rightarrow> i AND ip_int_from_prefix p = a
      | _ \<Rightarrow> False)"

text \<open>
  \<^verbatim>\<open>a < b\<close> on addresses and on networks: a \<^verbatim>\<open>TypeError\<close> when the versions differ.
  Addresses compare their integers. Networks compare their addresses when these are
  not equal (\<^verbatim>\<open>!=\<close>, which sees the zone identifier), then their netmasks: two networks
  whose addresses have the same integer and two zone identifiers are not equal, and
  neither is less than the other.
\<close>

definition ip_lt :: "ip \<Rightarrow> ip \<Rightarrow> exn + bool" where
  "ip_lt a b =
     (case (a, b) of
        (IPv4Address i, IPv4Address j) \<Rightarrow> Inr (if i \<noteq> j then i < j else False)
      | (IPv6Address i _, IPv6Address j _) \<Rightarrow> Inr (if i \<noteq> j then i < j else False)
      | _ \<Rightarrow> Inl TypeError)"

definition network_lt :: "network \<Rightarrow> network \<Rightarrow> exn + bool" where
  "network_lt a b =
     (if version a \<noteq> version b then Inl TypeError
      else if network_address a \<noteq> network_address b
        then ip_lt (network_address a) (network_address b)
      else if netmask a \<noteq> netmask b then ip_lt (netmask a) (netmask b)
      else Inr False)"

text \<open>
  \<^verbatim>\<open>IPv4Network(address, strict)\<close> and \<^verbatim>\<open>IPv6Network(address, strict)\<close> on a string.
  The network address is the address parsed, with its zone identifier; when it has bits
  beyond the prefix and \<^verbatim>\<open>strict\<close> is false, it is replaced by the address of the masked
  integer, which has no zone identifier.
\<close>

definition IPv4Network_init :: "string \<Rightarrow> bool \<Rightarrow> exn + network" where
  "IPv4Network_init address strict =
     (case split_addr_prefix 32 address of
        None \<Rightarrow> Inl AddressValueError
      | Some (addr, msk) \<Rightarrow>
          (case IPv4Address_init addr of
             None \<Rightarrow> Inl AddressValueError
           | Some packed \<Rightarrow>
               (case make_netmask4 msk of
                  None \<Rightarrow> Inl NetmaskValueError
                | Some p \<Rightarrow>
                    if packed AND ip_int_from_prefix p \<noteq> packed then
                      (if strict
                       then Inl (ValueError (str_network (IPv4Network packed p) @ '' has host bits set''))
                       else Inr (IPv4Network (packed AND ip_int_from_prefix p) p))
                    else Inr (IPv4Network packed p))))"

definition IPv6Network_init :: "string \<Rightarrow> bool \<Rightarrow> exn + network" where
  "IPv6Network_init address strict =
     (case split_addr_prefix 128 address of
        None \<Rightarrow> Inl AddressValueError
      | Some (addr, msk) \<Rightarrow>
          (case IPv6Address_init addr of
             None \<Rightarrow> Inl AddressValueError
           | Some (packed, scope_id) \<Rightarrow>
               (case make_netmask6 msk of
                  None \<Rightarrow> Inl NetmaskValueError
                | Some p \<Rightarrow>
                    if packed AND ip_int_from_prefix p \<noteq> packed then
                      (if strict
                       then Inl (ValueError (str_network (IPv6Network packed scope_id p)
                                             @ '' has host bits set''))
                       else Inr (IPv6Network (packed AND ip_int_from_prefix p) None p))
                    else Inr (IPv6Network packed scope_id p))))"

text \<open>
  \<^verbatim>\<open>ip_address(address)\<close> and \<^verbatim>\<open>ip_network(address, strict)\<close>: version 4 first, then
  version 6; only the two subclasses are caught.
\<close>

definition caught :: "exn \<Rightarrow> bool" where
  "caught e = (e = AddressValueError \<or> e = NetmaskValueError)"

definition ip_address :: "string \<Rightarrow> exn + ip" where
  "ip_address address =
     (case IPv4Address_init address of
        Some i \<Rightarrow> Inr (IPv4Address i)
      | None \<Rightarrow>
          (case IPv6Address_init address of
             Some (i, scope_id) \<Rightarrow> Inr (IPv6Address i scope_id)
           | None \<Rightarrow>
               Inl (ValueError (repr address @ '' does not appear to be an IPv4 or IPv6 address''))))"

definition ip_network :: "string \<Rightarrow> bool \<Rightarrow> exn + network" where
  "ip_network address strict =
     (case IPv4Network_init address strict of
        Inr n \<Rightarrow> Inr n
      | Inl e \<Rightarrow>
          if \<not> caught e then Inl e
          else (case IPv6Network_init address strict of
                  Inr n \<Rightarrow> Inr n
                | Inl e' \<Rightarrow>
                    if \<not> caught e' then Inl e'
                    else Inl (ValueError (repr address @
                           '' does not appear to be an IPv4 or IPv6 network''))))"

section \<open>\<^verbatim>\<open>sorted\<close> and \<^verbatim>\<open>json.dump\<close>\<close>

text \<open>
  \<^verbatim>\<open>sorted(xs)\<close> compares with \<^verbatim>\<open><\<close> only and is stable; an exception of the comparison
  ends it. The model inserts each element, from the last to the first, before the first
  element that is not less than it.
\<close>

fun insort_lt :: "('a \<Rightarrow> 'a \<Rightarrow> exn + bool) \<Rightarrow> 'a \<Rightarrow> 'a list \<Rightarrow> exn + 'a list" where
  "insort_lt lt x [] = Inr [x]"
| "insort_lt lt x (y # ys) =
     (case lt y x of
        Inl e \<Rightarrow> Inl e
      | Inr True \<Rightarrow> (case insort_lt lt x ys of Inl e \<Rightarrow> Inl e | Inr zs \<Rightarrow> Inr (y # zs))
      | Inr False \<Rightarrow> Inr (x # y # ys))"

fun sorted_py :: "('a \<Rightarrow> 'a \<Rightarrow> exn + bool) \<Rightarrow> 'a list \<Rightarrow> exn + 'a list" where
  "sorted_py lt [] = Inr []"
| "sorted_py lt (x # xs) =
     (case sorted_py lt xs of Inl e \<Rightarrow> Inl e | Inr ys \<Rightarrow> insort_lt lt x ys)"

datatype json = JString string | JInt int | JArray "json list" | JObject "(string \<times> json) list"

text \<open>
  The string encoder of \<^verbatim>\<open>json\<close> with \<^verbatim>\<open>ensure_ascii\<close>: the quote, the backslash and
  five control characters have short escapes, any other character outside
  \<^verbatim>\<open>' '\<close> .. \<^verbatim>\<open>'~'\<close> is \<^verbatim>\<open>\uXXXX\<close>.
\<close>

definition json_escape_char :: "char \<Rightarrow> string" where
  "json_escape_char c =
     (if c = CHR 0x22 then [CHR 0x5C, CHR 0x22]
      else if c = CHR 0x5C then [CHR 0x5C, CHR 0x5C]
      else if c = CHR 0x0A then [CHR 0x5C, CHR ''n'']
      else if c = CHR 0x0D then [CHR 0x5C, CHR ''r'']
      else if c = CHR 0x09 then [CHR 0x5C, CHR ''t'']
      else if c = CHR 0x08 then [CHR 0x5C, CHR ''b'']
      else if c = CHR 0x0C then [CHR 0x5C, CHR ''f'']
      else if 32 \<le> ord c \<and> ord c \<le> 126 then [c]
      else [CHR 0x5C, CHR ''u'', CHR ''0'', CHR ''0''] @ hex2 (ord c))"

definition json_string :: "string \<Rightarrow> string" where
  "json_string s = [CHR 0x22] @ concat (map json_escape_char s) @ [CHR 0x22]"

definition str_int :: "int \<Rightarrow> string" where
  "str_int i = (if i < 0 then ''-'' @ str_nat (nat (- i)) else str_nat (nat i))"

definition newline_indent :: "nat \<Rightarrow> nat \<Rightarrow> string" where
  "newline_indent indent level = [CHR 0x0A] @ replicate (indent * level) CHR '' ''"

text \<open>\<^verbatim>\<open>json.dumps(v, indent=indent)\<close>, at a nesting level.\<close>

fun json_dumps :: "nat \<Rightarrow> nat \<Rightarrow> json \<Rightarrow> string" where
  "json_dumps indent level (JString s) = json_string s"
| "json_dumps indent level (JInt i) = str_int i"
| "json_dumps indent level (JArray vs) =
     (if vs = [] then ''[]''
      else ''['' @ newline_indent indent (level + 1)
           @ join ('','' @ newline_indent indent (level + 1))
                  (map (json_dumps indent (level + 1)) vs)
           @ newline_indent indent level @ '']'')"
| "json_dumps indent level (JObject kvs) =
     (if kvs = [] then ''{}''
      else ''{'' @ newline_indent indent (level + 1)
           @ join ('','' @ newline_indent indent (level + 1))
                  (map (\<lambda>kv. json_string (fst kv) @ '': '' @ json_dumps indent (level + 1) (snd kv)) kvs)
           @ newline_indent indent level @ ''}'')"

section \<open>The blocklist manager\<close>

text \<open>
  \<^verbatim>\<open>BlocklistManager\<close> holds \<^verbatim>\<open>blocklist_dir\<close> and the set \<^verbatim>\<open>blocked_ips\<close>. The set is
  modelled by the list of its elements in the order a loop over it visits them, without
  repetition. Python fixes that order by the hashes of the elements and the history of
  the set; the model adds a new element at the end. A statement below about an operation
  that loops over the set is made for every order; an example that shows one order gives
  an order that CPython 3.11 has for that set.

  The files are the environment: \<open>path\<close> is \<^verbatim>\<open>str(Path(dir) / filename)\<close>, \<open>content\<close>
  the lines of the file at a path (\<open>None\<close> when the file does not exist), \<open>writable\<close>
  whether \<^verbatim>\<open>open(path, 'w')\<close> succeeds. A file that exists is one that \<^verbatim>\<open>open(path, 'r')\<close>
  opens and whose bytes decode: the errors of opening and of decoding, which
  \<^verbatim>\<open>load_blocklist\<close> does not catch, are no part of the model. What a method prints is
  returned as a list of lines.
\<close>

record manager =
  blocklist_dir :: string
  blocked_ips :: "network list"

record filesystem =
  path :: "string \<Rightarrow> string \<Rightarrow> string"
  content :: "string \<Rightarrow> string list option"
  writable :: "string \<Rightarrow> bool"

definition init :: "string \<Rightarrow> manager" where
  "init dir = \<lparr>blocklist_dir = dir, blocked_ips = []\<rparr>"

text \<open>\<^verbatim>\<open>s.add(x)\<close> on a set.\<close>

definition set_add :: "'a \<Rightarrow> 'a list \<Rightarrow> 'a list" where
  "set_add x xs = (if x \<in> set xs then xs else xs @ [x])"

text \<open>\<^verbatim>\<open>str(e)\<close>, and whether \<^verbatim>\<open>except ValueError\<close> catches \<open>e\<close>.\<close>

definition str_exn :: "exn \<Rightarrow> string" where
  "str_exn e = (case e of ValueError msg \<Rightarrow> msg | _ \<Rightarrow> [])"

definition is_ValueError :: "exn \<Rightarrow> bool" where
  "is_ValueError e = (case e of TypeError \<Rightarrow> False | OSError \<Rightarrow> False | _ \<Rightarrow> True)"

text \<open>
  The loop of \<^verbatim>\<open>load_blocklist\<close> over \<^verbatim>\<open>enumerate(f, 1)\<close>; its state is \<^verbatim>\<open>count\<close> (here \<open>cnt\<close>),
  the lines printed and the set.
\<close>

fun load_lines :: "nat \<Rightarrow> string list \<Rightarrow> nat \<times> string list \<times> network list
                   \<Rightarrow> exn + nat \<times> string list \<times> network list" where
  "load_lines line_num [] st = Inr st"
| "load_lines line_num (raw # rest) (cnt, out, ips) =
     (let line = strip raw in
      if line = [] \<or> startswith line ''#'' then load_lines (line_num + 1) rest (cnt, out, ips)
      else (case ip_network line False of
              Inr network \<Rightarrow>
                load_lines (line_num + 1) rest (cnt + 1, out, set_add network ips)
            | Inl e \<Rightarrow>
                if is_ValueError e then
                  load_lines (line_num + 1) rest
                    (cnt,
                     out @ [''Warning: Invalid IP at line '' @ str_nat line_num @ '': '' @ line
                            @ '' - '' @ str_exn e],
                     ips)
                else Inl e))"

definition load_blocklist :: "filesystem \<Rightarrow> manager \<Rightarrow> string
                              \<Rightarrow> exn + (nat \<times> string list) \<times> manager" where
  "load_blocklist fs self filename =
     (let filepath = path fs (blocklist_dir self) filename in
      case content fs filepath of
        None \<Rightarrow> Inr ((0, [''Error: Blocklist file not found: '' @ filepath]), self)
      | Some f \<Rightarrow>
          (case load_lines 1 f (0, [], blocked_ips self) of
             Inl e \<Rightarrow> Inl e
           | Inr (cnt, out, ips) \<Rightarrow> Inr ((cnt, out), self\<lparr>blocked_ips := ips\<rparr>)))"

text \<open>The loop of \<^verbatim>\<open>is_blocked\<close>: the first network of the set that has the address.\<close>

fun first_match :: "ip \<Rightarrow> network list \<Rightarrow> network option" where
  "first_match ip [] = None"
| "first_match ip (network # rest) =
     (if contains network ip then Some network else first_match ip rest)"

definition is_blocked :: "manager \<Rightarrow> string \<Rightarrow> exn + (bool \<times> string) \<times> manager" where
  "is_blocked self ip_address_str =
     (case ip_address ip_address_str of
        Inl e \<Rightarrow>
          if is_ValueError e then Inr ((False, ''Invalid IP: '' @ str_exn e), self) else Inl e
      | Inr ip \<Rightarrow>
          (case first_match ip (blocked_ips self) of
             Some network \<Rightarrow> Inr ((True, str_network network), self)
           | None \<Rightarrow> Inr ((False, []), self)))"

text \<open>
  The same loop counting its iterations, that is the containment tests it makes.
\<close>

fun first_match_steps :: "ip \<Rightarrow> network list \<Rightarrow> nat" where
  "first_match_steps ip [] = 0"
| "first_match_steps ip (network # rest) =
     (if contains network ip then 1 else 1 + first_match_steps ip rest)"

definition is_blocked_steps :: "manager \<Rightarrow> string \<Rightarrow> nat" where
  "is_blocked_steps self ip_address_str =
     (case ip_address ip_address_str of
        Inl e \<Rightarrow> 0
      | Inr ip \<Rightarrow> first_match_steps ip (blocked_ips self))"

text \<open>\<^verbatim>\<open>_sort_networks\<close>, under the name \<open>sort_networks\<close>.\<close>

definition sort_networks :: "manager \<Rightarrow> exn + network list" where
  "sort_networks self =
     (case sorted_py network_lt (filter (\<lambda>n. version n = 4) (blocked_ips self)) of
        Inl e \<Rightarrow> Inl e
      | Inr ipv4_networks \<Rightarrow>
          (case sorted_py network_lt (filter (\<lambda>n. version n = 6) (blocked_ips self)) of
             Inl e \<Rightarrow> Inl e
           | Inr ipv6_networks \<Rightarrow> Inr (ipv4_networks @ ipv6_networks)))"

text \<open>The dictionary that the \<^verbatim>\<open>json\<close> branch of \<^verbatim>\<open>export_to_format\<close> dumps.\<close>

definition export_data :: "manager \<Rightarrow> network list \<Rightarrow> json" where
  "export_data self sorted_networks =
     JObject [(''blocked_ips'', JArray (map (\<lambda>ip. JString (str_network ip)) sorted_networks)),
              (''total_count'', JInt (int (length (blocked_ips self))))]"

text \<open>
  \<^verbatim>\<open>export_to_format\<close> returns the text written to the file and the line printed.
\<close>

definition export_to_format :: "filesystem \<Rightarrow> manager \<Rightarrow> string \<Rightarrow> string
                                \<Rightarrow> exn + string \<times> string" where
  "export_to_format fs self output_file format_type =
     (case sort_networks self of
        Inl e \<Rightarrow> Inl e
      | Inr sorted_networks \<Rightarrow>
          if \<not> writable fs output_file then Inl OSError
          else
            (let f =
               (if format_type = ''plain'' then
                  concat (map (\<lambda>network. str_network network @ [CHR 0x0A]) sorted_networks)
                else if format_type = ''iptables'' then
                  ''#!/bin/bash'' @ [CHR 0x0A]
                  @ ''# Generated iptables rules'' @ [CHR 0x0A, CHR 0x0A]
                  @ concat (map (\<lambda>network. ''iptables -A INPUT -s '' @ str_network network
                                             @ '' -j DROP'' @ [CHR 0x0A]) sorted_networks)
                else if format_type = ''nginx'' then
                  ''# Generated nginx geo block'' @ [CHR 0x0A]
                  @ ''geo $blocked_ip {'' @ [CHR 0x0A]
                  @ ''    default 0;'' @ [CHR 0x0A]
                  @ concat (map (\<lambda>network. ''    '' @ str_network network @ '' 1;''
                                             @ [CHR 0x0A]) sorted_networks)
                  @ ''}'' @ [CHR 0x0A]
                else if format_type = ''apache'' then
                  ''# Generated Apache blocklist'' @ [CHR 0x0A]
                  @ ''<RequireAll>'' @ [CHR 0x0A]
                  @ ''    Require all granted'' @ [CHR 0x0A]
                  @ concat (map (\<lambda>network. ''    Require not ip '' @ str_network network
                                             @ [CHR 0x0A]) sorted_networks)
                  @ ''</RequireAll>'' @ [CHR 0x0A]
                else if format_type = ''json'' then
                  json_dumps 2 0 (export_data self sorted_networks)
                else [])
             in Inr (f, ''Exported '' @ str_nat (length (blocked_ips self)) @ '' entries to ''
                        @ output_file @ '' ('' @ format_type @ '' format)'')))"

text \<open>The choices that \<^verbatim>\<open>main\<close> gives the argument parser for \<^verbatim>\<open>--format\<close>.\<close>

definition format_choices :: "string list" where
  "format_choices = [''plain'', ''iptables'', ''nginx'', ''apache'', ''json'']"

section \<open>Notions used in the statements\<close>

text \<open>
  The range of a network runs from its \<^verbatim>\<open>network_address\<close> to its
  \<^verbatim>\<open>broadcast_address\<close>; an address is numerically within it when it is of the same
  version and lies between the two.
\<close>

definition numerically_within :: "network \<Rightarrow> ip \<Rightarrow> bool" where
  "numerically_within n x =
     (case (network_address n, x, broadcast_address n) of
        (IPv4Address lo, IPv4Address i, IPv4Address hi) \<Rightarrow> lo \<le> i \<and> i \<le> hi
      | (IPv6Address lo _, IPv6Address i _, IPv6Address hi _) \<Rightarrow> lo \<le> i \<and> i \<le> hi
      | _ \<Rightarrow> False)"

definition max_prefixlen :: "network \<Rightarrow> nat" where
  "max_prefixlen n = (case n of IPv4Network _ _ \<Rightarrow> 32 | IPv6Network _ _ _ \<Rightarrow> 128)"

text \<open>An entry as the parser builds it: a prefix length within the family's range.\<close>

definition valid_network :: "network \<Rightarrow> bool" where
  "valid_network n = (prefixlen n \<le> max_prefixlen n)"

text \<open>An entry is canonical when the bits of its base beyond the prefix length are zero.\<close>

definition canonical :: "network \<Rightarrow> bool" where
  "canonical n =
     (case n of
        IPv4Network a p \<Rightarrow> a AND (ip_int_from_prefix p XOR ALL_ONES) = 0
      | IPv6Network a _ p \<Rightarrow> a AND (ip_int_from_prefix p XOR ALL_ONES) = 0)"

definition base :: "network \<Rightarrow> nat" where
  "base n = (case n of IPv4Network a _ \<Rightarrow> unat a | IPv6Network a _ _ \<Rightarrow> unat a)"

text \<open>The zone identifier of an entry: none for version 4.\<close>

definition zone :: "network \<Rightarrow> string option" where
  "zone n = (case n of IPv4Network _ _ \<Rightarrow> None | IPv6Network _ scope_id _ \<Rightarrow> scope_id)"

text \<open>
  In a set of entries the zones agree when no two entries of one family have the same base
  address and two zone identifiers; it is so, for one, when no entry has a zone
  identifier.
\<close>

definition zones_agree :: "network set \<Rightarrow> bool" where
  "zones_agree S =
     (\<forall>a\<in>S. \<forall>b\<in>S. version a = version b \<and> base a = base b \<longrightarrow> zone a = zone b)"

text \<open>The order of the export: family, then base address, then prefix length.\<close>

definition entry_key :: "network \<Rightarrow> nat \<times> nat \<times> nat" where
  "entry_key n = (version n, base n, prefixlen n)"

text \<open>What \<^verbatim>\<open><\<close> on networks of one family compares: the address, then the netmask.\<close>

definition net_key :: "network \<Rightarrow> nat \<times> nat" where
  "net_key n =
     (case n of
        IPv4Network a p \<Rightarrow> (unat a, unat (ip_int_from_prefix p :: 32 word))
      | IPv6Network a _ p \<Rightarrow> (unat a, unat (ip_int_from_prefix p :: 128 word)))"

text \<open>
  A line of a blocklist file is a data line unless it is empty or a comment once
  stripped; a data line is malformed when \<^verbatim>\<open>ip_network\<close> raises on it.
\<close>

definition data_line :: "string \<Rightarrow> bool" where
  "data_line raw = (strip raw \<noteq> [] \<and> \<not> startswith (strip raw) ''#'')"

definition parsed :: "string \<Rightarrow> network option" where
  "parsed raw =
     (if data_line raw
      then (case ip_network (strip raw) False of Inr n \<Rightarrow> Some n | Inl _ \<Rightarrow> None)
      else None)"

definition malformed :: "string \<Rightarrow> bool" where
  "malformed raw = (data_line raw \<and> parsed raw = None)"

definition warning :: "nat \<times> string \<Rightarrow> string" where
  "warning nl =
     ''Warning: Invalid IP at line '' @ str_nat (fst nl) @ '': '' @ strip (snd nl) @ '' - ''
     @ repr (strip (snd nl)) @ '' does not appear to be an IPv4 or IPv6 network''"

text \<open>Inserting entries one after the other, as the loop of \<^verbatim>\<open>load_blocklist\<close> does.\<close>

definition insert_all :: "network list \<Rightarrow> network list \<Rightarrow> network list" where
  "insert_all es ips = foldl (\<lambda>acc e. set_add e acc) ips es"

text \<open>
  Inputs of the examples: a file system holding one file, in which every path can be
  written; the manager holding the host entries \<^verbatim>\<open>0.0.0.1/32\<close> .. \<^verbatim>\<open>0.0.0.k/32\<close>; the
  managers holding \<^verbatim>\<open>10.0.0.0/8\<close> and \<^verbatim>\<open>10.1.2.3/32\<close>, and \<^verbatim>\<open>2.2.2.0/24\<close> and
  \<^verbatim>\<open>1.1.1.1/32\<close>; a file of three lines, the second malformed.
\<close>

definition one_file :: "string \<Rightarrow> string list \<Rightarrow> filesystem" where
  "one_file name f =
     \<lparr>path = (\<lambda>dir filename. dir @ ''/'' @ filename),
      content = (\<lambda>p. if p = name then Some f else None),
      writable = (\<lambda>p. True)\<rparr>"

definition host_entries :: "nat \<Rightarrow> manager" where
  "host_entries k =
     \<lparr>blocklist_dir = ''../blocklists'',
      blocked_ips = map (\<lambda>i. IPv4Network (of_nat i) 32) [1 ..< Suc k]\<rparr>"

definition ten_nets :: manager where
  "ten_nets =
     \<lparr>blocklist_dir = ''../blocklists'',
      blocked_ips = [IPv4Network 0x0A000000 8, IPv4Network 0x0A010203 32]\<rparr>"

definition three_lines :: "string list" where
  "three_lines = [''1.1.1.1'', ''bad-token'', ''2.2.2.2/24'']"




section \<open>Evaluation\<close>

text \<open>
  The definitions that the simplifier unfolds to run the model on a concrete input.
\<close>

lemmas text_eval = Let_def ord_def isspace_def strip_def isdigit_def isascii_isdigit_def int10_def
  digit_char_def str_nat.simps hex_nat.simps join_def isprintable_def hex2_def repr_char_def
  repr_def

lemmas ip_eval = mask_eq_exp_minus_1 ALL_ONES_def ip_int_from_prefix_def max_str_digits_def
  prefix_from_prefix_string_def split_optional_netmask_def split_addr_prefix_def parse_octet_def
  from_bytes_big_def ip_int_from_string4_def IPv4Address_init_def make_netmask4_def
  to_bytes4_def string_from_ip_int4_def ishex_def hex_value_def int16_def parse_hextet_def
  ipv4_suffix_def part_counts_def parse_parts_def ip_int_from_string6_def split_scope_id_def
  IPv6Address_init_def
  make_netmask6_def str_ip_def version_def prefixlen_def network_address_def netmask_def
  str_network_def contains_def IPv4Network_init_def IPv6Network_init_def caught_def
  ip_address_def ip_network_def

section \<open>The membership query\<close>

lemma ip_address_Inl:
  "ip_address s = Inl e \<Longrightarrow>
     e = ValueError (repr s @ '' does not appear to be an IPv4 or IPv6 address'')"
  by (auto simp: ip_address_def split: option.splits)

lemma word_and_mask_range:
  fixes i :: "'a::len word"
  shows "i AND m \<le> i \<and> i \<le> (i AND m) OR (m XOR ALL_ONES)"
proof
  show "i AND m \<le> i" using word_and_le2 by blast
  have "i AND ((i AND m) OR (m XOR ALL_ONES)) = i"
    unfolding ALL_ONES_def
    by (rule bit_word_eqI) (auto simp: bit_simps)
  then show "i \<le> (i AND m) OR (m XOR ALL_ONES)"
    by (metis word_and_le1)
qed

lemma contains_within: "contains n x \<Longrightarrow> numerically_within n x"
  by (cases n; cases x)
     (auto simp: contains_def numerically_within_def network_address_def broadcast_address_def
        word_and_mask_range)

lemma first_match_Some: "first_match x ns = Some n \<Longrightarrow> n \<in> set ns \<and> contains n x"
  by (induction ns) (auto split: if_splits)

lemma first_match_index:
  "first_match x ns = Some n \<Longrightarrow>
     \<exists>i<length ns. ns ! i = n \<and> contains n x \<and> (\<forall>j<i. \<not> contains (ns ! j) x)"
proof (induction ns)
  case Nil
  then show ?case by simp
next
  case (Cons a ns)
  show ?case
  proof (cases "contains a x")
    case True
    with Cons.prems have "a = n" by simp
    with True show ?thesis by (intro exI [of _ 0]) simp
  next
    case False
    with Cons.prems have "first_match x ns = Some n" by simp
    from Cons.IH [OF this] obtain i where i: "i < length ns" "ns ! i = n" "contains n x"
      "\<forall>j<i. \<not> contains (ns ! j) x" by blast
    show ?thesis
    proof (intro exI [of _ "Suc i"] conjI allI impI)
      fix j assume "j < Suc i"
      then show "\<not> contains ((a # ns) ! j) x" using False i(4) by (cases j) auto
    qed (use i in auto)
  qed
qed

lemma is_blocked_ten_nets:
  "is_blocked ten_nets ''10.1.2.3'' = Inr ((True, ''10.0.0.0/8''), ten_nets)"
  by (simp add: is_blocked_def ten_nets_def text_eval ip_eval)

lemma ip_address_bad_token:
  "ip_address ''bad-token'' =
     Inl (ValueError (CHR 0x27 # ''bad-token'' @ CHR 0x27
                      # '' does not appear to be an IPv4 or IPv6 address''))"
  by (simp add: text_eval ip_eval)

text \<open>
  C4. For every queried address, if \<^verbatim>\<open>is_blocked\<close> returns a matching entry, then the
  text queried is an address \<open>x\<close>, the entry is a stored network, and \<open>x\<close> is numerically
  within the range of that network (between its network address and its broadcast
  address).
\<close>

theorem is_blocked_match_within_range:
  assumes "is_blocked self s = Inr ((True, r), self')"
  shows "\<exists>x n. ip_address s = Inr x \<and> n \<in> set (blocked_ips self) \<and> r = str_network n
           \<and> contains n x \<and> numerically_within n x"
proof -
  from assms obtain x where x: "ip_address s = Inr x"
    by (auto simp: is_blocked_def split: sum.splits if_splits)
  with assms obtain n where n: "first_match x (blocked_ips self) = Some n" "r = str_network n"
    by (auto simp: is_blocked_def split: option.splits)
  from first_match_Some [OF n(1)] have "n \<in> set (blocked_ips self)" "contains n x" by auto
  with x n(2) contains_within show ?thesis by blast
qed

theorem is_blocked_match_within_range_witness:
  "is_blocked ten_nets ''10.1.2.3'' = Inr ((True, ''10.0.0.0/8''), ten_nets)
   \<and> (\<exists>x n. ip_address ''10.1.2.3'' = Inr x \<and> n \<in> set (blocked_ips ten_nets)
          \<and> ''10.0.0.0/8'' = str_network n \<and> contains n x \<and> numerically_within n x)"
  using is_blocked_match_within_range [OF is_blocked_ten_nets] is_blocked_ten_nets by simp

text \<open>
  C10. For every string that is not a valid IP address, \<^verbatim>\<open>is_blocked\<close> raises nothing: it
  returns \<^verbatim>\<open>False\<close> with a diagnostic that begins \<^verbatim>\<open>Invalid IP:\<close>; and every query, of
  any string, returns with the manager, hence the stored set, as it was.
\<close>

theorem is_blocked_invalid_ip:
  assumes "ip_address s = Inl e"
  shows "is_blocked self s =
           Inr ((False, ''Invalid IP: '' @ repr s
                        @ '' does not appear to be an IPv4 or IPv6 address''), self)
         \<and> (\<forall>t. \<exists>r. is_blocked self t = Inr (r, self))"
  using assms
  by (auto simp: is_blocked_def is_ValueError_def str_exn_def
           split: sum.splits option.splits dest!: ip_address_Inl)

theorem is_blocked_invalid_ip_witness:
  "is_blocked ten_nets ''bad-token'' =
     Inr ((False, ''Invalid IP: '' @ repr ''bad-token''
                  @ '' does not appear to be an IPv4 or IPv6 address''), ten_nets)
   \<and> (\<forall>t. \<exists>r. is_blocked ten_nets t = Inr (r, ten_nets))"
  using is_blocked_invalid_ip [OF ip_address_bad_token] by simp

text \<open>
  C1 fails. The loop of \<^verbatim>\<open>is_blocked\<close> returns at the first network that has the
  address. In the set holding \<^verbatim>\<open>10.0.0.0/8\<close> and \<^verbatim>\<open>10.1.2.3/32\<close> (which CPython
  iterates in this order, whichever was added first: the hashes are
  \<^verbatim>\<open>0xF5000000\<close> and \<^verbatim>\<open>0xF5FEFDFC\<close>, slots 0 and 4 of a table of 8), the query
  \<^verbatim>\<open>10.1.2.3\<close> returns \<^verbatim>\<open>10.0.0.0/8\<close>, while \<^verbatim>\<open>10.1.2.3/32\<close>, also stored and also
  containing the address, has the longer prefix.
\<close>

theorem longest_prefix_match_counterexample:
  "is_blocked ten_nets ''10.1.2.3'' = Inr ((True, str_network (IPv4Network 0x0A000000 8)), ten_nets)
   \<and> ip_address ''10.1.2.3'' = Inr (IPv4Address 0x0A010203)
   \<and> blocked_ips ten_nets = [IPv4Network 0x0A000000 8, IPv4Network 0x0A010203 32]
   \<and> contains (IPv4Network 0x0A000000 8) (IPv4Address 0x0A010203)
   \<and> contains (IPv4Network 0x0A010203 32) (IPv4Address 0x0A010203)
   \<and> prefixlen (IPv4Network 0x0A000000 8) < prefixlen (IPv4Network 0x0A010203 32)"
  by (simp add: is_blocked_def ten_nets_def text_eval ip_eval)

text \<open>
  C1, amended. If \<^verbatim>\<open>is_blocked\<close> returns a matching entry, that entry is the first
  network, in the order in which the set is iterated, that contains the queried
  address: no network before it contains the address. Nothing is said of the prefix
  lengths.
\<close>

theorem is_blocked_first_match:
  assumes "is_blocked self s = Inr ((True, r), self')"
  shows "\<exists>x i. ip_address s = Inr x \<and> i < length (blocked_ips self)
           \<and> r = str_network (blocked_ips self ! i)
           \<and> contains (blocked_ips self ! i) x
           \<and> (\<forall>j<i. \<not> contains (blocked_ips self ! j) x)"
proof -
  from assms obtain x where x: "ip_address s = Inr x"
    by (auto simp: is_blocked_def split: sum.splits if_splits)
  with assms obtain n where n: "first_match x (blocked_ips self) = Some n" "r = str_network n"
    by (auto simp: is_blocked_def split: option.splits)
  from first_match_index [OF n(1)] x n(2) show ?thesis by blast
qed

theorem is_blocked_first_match_witness:
  "is_blocked ten_nets ''10.1.2.3'' = Inr ((True, ''10.0.0.0/8''), ten_nets)
   \<and> (\<exists>x i. ip_address ''10.1.2.3'' = Inr x \<and> i < length (blocked_ips ten_nets)
           \<and> ''10.0.0.0/8'' = str_network (blocked_ips ten_nets ! i)
           \<and> contains (blocked_ips ten_nets ! i) x
           \<and> (\<forall>j<i. \<not> contains (blocked_ips ten_nets ! j) x))"
  using is_blocked_first_match [OF is_blocked_ten_nets] is_blocked_ten_nets by simp

subsection \<open>The cost of a query\<close>

lemma first_match_steps_le: "first_match_steps x ns \<le> length ns"
  by (induction ns) auto

lemma first_match_steps_None: "first_match x ns = None \<Longrightarrow> first_match_steps x ns = length ns"
  by (induction ns) (auto split: if_splits)

lemma first_match_None_iff: "first_match x ns = None \<longleftrightarrow> (\<forall>n\<in>set ns. \<not> contains n x)"
  by (induction ns) auto

lemma ip_address_zero: "ip_address ''0.0.0.0'' = Inr (IPv4Address 0)"
  by (simp add: text_eval ip_eval)

lemma host_entries_no_match:
  assumes "k < 2 ^ 32"
  shows "first_match (IPv4Address 0) (blocked_ips (host_entries k)) = None"
proof -
  have "of_nat i \<noteq> (0 :: 32 word)" if "1 \<le> i" "i \<le> k" for i
  proof -
    have "unat (of_nat i :: 32 word) = i" using that assms
      by (simp add: unsigned_of_nat take_bit_nat_eq_self)
    then show ?thesis using that by (metis not_one_le_zero unat_0)
  qed
  then show ?thesis
    by (auto simp: first_match_None_iff host_entries_def contains_def)
qed

text \<open>
  C9 fails. \<^verbatim>\<open>is_blocked\<close> scans the set: with the 129 host entries
  \<^verbatim>\<open>0.0.0.1/32\<close> .. \<^verbatim>\<open>0.0.0.129/32\<close> stored, the query \<^verbatim>\<open>0.0.0.0\<close> makes 129
  containment tests, more than 32 and more than 128, and with one entry stored it makes
  one: the number of steps follows the number of entries.
\<close>

theorem is_blocked_steps_counterexample:
  "is_blocked_steps (host_entries 129) ''0.0.0.0'' = 129
   \<and> is_blocked_steps (host_entries 1) ''0.0.0.0'' = 1
   \<and> is_blocked (host_entries 129) ''0.0.0.0'' = Inr ((False, []), host_entries 129)"
proof -
  have a: "first_match (IPv4Address 0) (blocked_ips (host_entries 129)) = None"
    by (rule host_entries_no_match) simp
  have b: "first_match (IPv4Address 0) (blocked_ips (host_entries 1)) = None"
    by (rule host_entries_no_match) simp
  have "length (blocked_ips (host_entries 129)) = 129" "length (blocked_ips (host_entries 1)) = 1"
    by (simp_all add: host_entries_def)
  with a b show ?thesis
    by (simp add: is_blocked_steps_def is_blocked_def ip_address_zero first_match_steps_None)
qed

text \<open>
  C9, amended. A query makes at most one containment test for each stored entry, and
  exactly one for each when no entry contains the address: the bound is the number of
  entries, not the number of bits of the address.
\<close>

theorem is_blocked_steps_linear:
  "is_blocked_steps self s \<le> length (blocked_ips self)
   \<and> (\<forall>x. ip_address s = Inr x \<and> (\<forall>n\<in>set (blocked_ips self). \<not> contains n x)
          \<longrightarrow> is_blocked_steps self s = length (blocked_ips self))"
  by (auto simp: is_blocked_steps_def first_match_steps_le first_match_steps_None
        first_match_None_iff split: sum.splits)

theorem is_blocked_steps_linear_witness:
  "is_blocked_steps (host_entries 129) ''0.0.0.0'' \<le> length (blocked_ips (host_entries 129))
   \<and> ip_address ''0.0.0.0'' = Inr (IPv4Address 0)
   \<and> first_match (IPv4Address 0) (blocked_ips (host_entries 129)) = None
   \<and> is_blocked_steps (host_entries 129) ''0.0.0.0'' = length (blocked_ips (host_entries 129))"
proof -
  have a: "first_match (IPv4Address 0) (blocked_ips (host_entries 129)) = None"
    by (rule host_entries_no_match) simp
  then have b: "\<forall>n\<in>set (blocked_ips (host_entries 129)). \<not> contains n (IPv4Address 0)"
    by (simp add: first_match_None_iff)
  with is_blocked_steps_linear [of "host_entries 129" "''0.0.0.0''"] ip_address_zero a
  show ?thesis by blast
qed

section \<open>Loading a blocklist\<close>

lemmas load_eval = data_line_def parsed_def is_ValueError_def str_exn_def set_add_def
  load_blocklist_def one_file_def init_def

lemma ip_network_False_Inl:
  "ip_network s False = Inl e \<Longrightarrow>
     e = ValueError (repr s @ '' does not appear to be an IPv4 or IPv6 network'')"
  by (auto simp: ip_network_def IPv4Network_init_def IPv6Network_init_def caught_def
        split: sum.splits option.splits if_splits prod.splits)

text \<open>One turn of the loop, in the terms of the statements.\<close>

lemma load_lines_step:
  "load_lines k (raw # rest) (c, out, ips) =
     (if \<not> data_line raw then load_lines (Suc k) rest (c, out, ips)
      else case parsed raw of
             Some n \<Rightarrow> load_lines (Suc k) rest (Suc c, out, set_add n ips)
           | None \<Rightarrow> load_lines (Suc k) rest (c, out @ [warning (k, raw)], ips))"
  by (auto simp: data_line_def parsed_def warning_def Let_def is_ValueError_def str_exn_def
        split: sum.splits dest!: ip_network_False_Inl)

lemma load_ten_nets:
  "load_blocklist (one_file ''../blocklists/list.txt'' [''10.0.0.0/8'', ''10.1.2.3/32''])
     (init ''../blocklists'') ''list.txt'' = Inr ((2, []), ten_nets)"
  by (simp add: ten_nets_def load_eval text_eval ip_eval)

text \<open>
  C2 fails. Loading \<^verbatim>\<open>10.0.0.0/8\<close> and then \<^verbatim>\<open>10.1.2.3/32\<close> into an empty set
  gives a set of two entries: the \<^verbatim>\<open>/32\<close>, which the \<^verbatim>\<open>/8\<close> contains, is kept.
\<close>

theorem covered_entry_counterexample:
  "load_blocklist (one_file ''../blocklists/list.txt'' [''10.0.0.0/8'', ''10.1.2.3/32''])
     (init ''../blocklists'') ''list.txt''
     = Inr ((2, []), \<lparr>blocklist_dir = ''../blocklists'',
                      blocked_ips = [IPv4Network 0x0A000000 8, IPv4Network 0x0A010203 32]\<rparr>)
   \<and> length [IPv4Network 0x0A000000 8, IPv4Network 0x0A010203 32] = 2
   \<and> contains (IPv4Network 0x0A000000 8) (IPv4Address 0x0A010203)"
  using load_ten_nets by (simp add: ten_nets_def ip_eval)

text \<open>
  C2, amended. A line that parses to an entry \<open>n\<close> leaves the set as it is when an
  entry equal to \<open>n\<close> is stored, and adds \<open>n\<close> otherwise, covered or not; the line is
  counted in both cases. Entries are equal as \<^verbatim>\<open>==\<close> of \<^verbatim>\<open>ipaddress\<close> has it: the same
  family, the same base address after masking, the same zone identifier and the same
  prefix length. So \<^verbatim>\<open>fe80::%eth1/64\<close> is added to a set that holds \<^verbatim>\<open>fe80::%eth0/64\<close>.
\<close>

theorem load_adds_entry_unless_equal:
  assumes "parsed raw = Some n"
  shows "load_lines k [raw] (c, out, ips) =
           Inr (Suc c, out, if n \<in> set ips then ips else ips @ [n])"
  using assms
  by (simp add: load_lines_step set_add_def parsed_def del: load_lines.simps(2) split: if_splits)

theorem load_adds_entry_unless_equal_witness:
  "parsed ''10.1.2.3/32'' = Some (IPv4Network 0x0A010203 32)
   \<and> load_lines 2 [''10.1.2.3/32''] (1, [], [IPv4Network 0x0A000000 8])
       = Inr (2, [], [IPv4Network 0x0A000000 8, IPv4Network 0x0A010203 32])
   \<and> load_lines 2 [''10.1.2.3/32''] (1, [], [IPv4Network 0x0A010203 32])
       = Inr (2, [], [IPv4Network 0x0A010203 32])
   \<and> parsed ''fe80::%eth1/64''
       = Some (IPv6Network 0xfe800000000000000000000000000000 (Some ''eth1'') 64)
   \<and> load_lines 2 [''fe80::%eth1/64'']
        (1, [], [IPv6Network 0xfe800000000000000000000000000000 (Some ''eth0'') 64])
       = Inr (2, [], [IPv6Network 0xfe800000000000000000000000000000 (Some ''eth0'') 64,
                      IPv6Network 0xfe800000000000000000000000000000 (Some ''eth1'') 64])
   \<and> load_lines 2 [''fe80::%eth1/64'']
        (1, [], [IPv6Network 0xfe800000000000000000000000000000 (Some ''eth1'') 64])
       = Inr (2, [], [IPv6Network 0xfe800000000000000000000000000000 (Some ''eth1'') 64])"
proof -
  have p: "parsed ''10.1.2.3/32'' = Some (IPv4Network 0x0A010203 32)"
    by (simp add: load_eval text_eval ip_eval)
  have q: "parsed ''fe80::%eth1/64''
             = Some (IPv6Network 0xfe800000000000000000000000000000 (Some ''eth1'') 64)"
    by (simp add: load_eval text_eval ip_eval)
  from load_adds_entry_unless_equal [OF p, of 2 1 "[]" "[IPv4Network 0x0A000000 8]"]
       load_adds_entry_unless_equal [OF p, of 2 1 "[]" "[IPv4Network 0x0A010203 32]"]
       load_adds_entry_unless_equal [OF q, of 2 1 "[]"
         "[IPv6Network 0xfe800000000000000000000000000000 (Some ''eth0'') 64]"]
       load_adds_entry_unless_equal [OF q, of 2 1 "[]"
         "[IPv6Network 0xfe800000000000000000000000000000 (Some ''eth1'') 64]"] p q
  show ?thesis by simp
qed

subsection \<open>Parsing a token\<close>


lemma masked_canonical:
  "(a AND ip_int_from_prefix k) AND ((ip_int_from_prefix k :: 'a::len word) XOR ALL_ONES) = 0"
  unfolding ALL_ONES_def by (rule bit_word_eqI) (auto simp: bit_simps)

text \<open>What \<^verbatim>\<open>ip_network\<close> builds is valid and canonical.\<close>

lemma prefix_from_prefix_string_le: "prefix_from_prefix_string m s = Some p \<Longrightarrow> p \<le> m"
  by (auto simp: prefix_from_prefix_string_def Let_def split: if_splits)

lemma prefix_from_ip_int_le: "prefix_from_ip_int m x = Some p \<Longrightarrow> p \<le> m"
  by (auto simp: prefix_from_ip_int_def Let_def split: if_splits)

lemma make_netmask4_le: "make_netmask4 arg = Some p \<Longrightarrow> p \<le> 32"
  by (auto simp: make_netmask4_def prefix_from_ip_string4_def
        split: mask_arg.splits option.splits if_splits
        dest: prefix_from_prefix_string_le prefix_from_ip_int_le)

lemma make_netmask6_le: "make_netmask6 arg = Some p \<Longrightarrow> p \<le> 128"
  by (auto simp: make_netmask6_def split: mask_arg.splits if_splits
        dest: prefix_from_prefix_string_le)

lemma ip_network_valid:
  assumes "ip_network s False = Inr n"
  shows "valid_network n \<and> canonical n"
proof -
  from assms consider (v4) "IPv4Network_init s False = Inr n" | (v6) "IPv6Network_init s False = Inr n"
    by (auto simp: ip_network_def split: sum.splits if_splits)
  then show ?thesis
  proof cases
    case v4
    then obtain a p q where m: "make_netmask4 p = Some q" and n: "n = IPv4Network a q"
      and a: "a AND ip_int_from_prefix q = a"
      by (auto simp: IPv4Network_init_def split: option.splits if_splits prod.splits)
    from masked_canonical [of a q] a
    have "a AND ((ip_int_from_prefix q :: 32 word) XOR ALL_ONES) = 0" by simp
    with make_netmask4_le [OF m] n show ?thesis
      by (simp add: valid_network_def max_prefixlen_def canonical_def prefixlen_def)
  next
    case v6
    then obtain a z p q where m: "make_netmask6 p = Some q" and n: "n = IPv6Network a z q"
      and a: "a AND ip_int_from_prefix q = a"
      by (auto simp: IPv6Network_init_def split: option.splits if_splits prod.splits)
    from masked_canonical [of a q] a
    have "a AND ((ip_int_from_prefix q :: 128 word) XOR ALL_ONES) = 0" by simp
    with make_netmask6_le [OF m] n show ?thesis
      by (simp add: valid_network_def max_prefixlen_def canonical_def prefixlen_def)
  qed
qed

lemma parsed_valid: "parsed raw = Some n \<Longrightarrow> valid_network n \<and> canonical n"
  by (auto simp: parsed_def split: if_splits sum.splits dest: ip_network_valid)

text \<open>With \<^verbatim>\<open>strict=True\<close>, which the program does not use, the same token is refused.\<close>

lemma ip_network_strict_refuses:
  "ip_network ''10.1.2.3/8'' True = Inl (ValueError ''10.1.2.3/8 has host bits set'')"
  by (simp add: text_eval ip_eval)



subsection \<open>The whole file\<close>

lemma insert_all_set: "set (insert_all es ips) = set ips \<union> set es"
  unfolding insert_all_def by (induction es arbitrary: ips) (auto simp: set_add_def)

lemma insert_all_distinct: "distinct ips \<Longrightarrow> distinct (insert_all es ips)"
  unfolding insert_all_def by (induction es arbitrary: ips) (auto simp: set_add_def)

lemma parsed_None_unless_data_line: "\<not> data_line raw \<Longrightarrow> parsed raw = None"
  by (simp add: parsed_def)

lemma set_map_filter: "set (List.map_filter g xs) = {y. \<exists>x\<in>set xs. g x = Some y}"
  by (induction xs) (auto simp: List.map_filter_simps split: option.splits)

lemma load_lines_result:
  "load_lines k f (c, out, ips) =
     Inr (c + length (filter (\<lambda>raw. parsed raw \<noteq> None) f),
          out @ map warning (filter (\<lambda>nl. malformed (snd nl)) (enumerate k f)),
          insert_all (List.map_filter parsed f) ips)"
proof (induction f arbitrary: k c out ips)
  case Nil
  then show ?case by (simp add: insert_all_def List.map_filter_simps)
next
  case (Cons raw rest)
  consider (skip) "\<not> data_line raw" | (ok) n where "data_line raw" "parsed raw = Some n"
    | (bad) "data_line raw" "parsed raw = None"
    by (cases "parsed raw") auto
  then show ?case
  proof cases
    case skip
    then show ?thesis
      by (simp add: load_lines_step Cons.IH parsed_None_unless_data_line malformed_def
            List.map_filter_simps del: load_lines.simps(2))
  next
    case ok
    then show ?thesis
      by (simp add: load_lines_step Cons.IH malformed_def insert_all_def
            List.map_filter_simps del: load_lines.simps(2))
  next
    case bad
    then show ?thesis
      by (simp add: load_lines_step Cons.IH malformed_def
            List.map_filter_simps del: load_lines.simps(2))
  qed
qed

text \<open>
  C6. For every file, \<^verbatim>\<open>load_blocklist\<close> returns normally: the count is the number of
  lines that parsed, one warning is printed for each malformed line, with its line
  number, in the order of the file, and every entry parsed from a line of the file,
  before or after a malformed one, is in the set afterwards, next to the entries that
  were there before.
\<close>

theorem load_blocklist_skips_malformed:
  assumes "content fs (path fs (blocklist_dir self) filename) = Some f"
  shows "load_blocklist fs self filename =
           Inr ((length (filter (\<lambda>raw. parsed raw \<noteq> None) f),
                 map warning (filter (\<lambda>nl. malformed (snd nl)) (enumerate 1 f))),
                self\<lparr>blocked_ips := insert_all (List.map_filter parsed f) (blocked_ips self)\<rparr>)
         \<and> set (insert_all (List.map_filter parsed f) (blocked_ips self))
             = set (blocked_ips self) \<union> {n. \<exists>raw\<in>set f. parsed raw = Some n}"
  using assms
  by (simp add: load_blocklist_def load_lines_result insert_all_set set_map_filter)

lemma load_three_lines_parts:
  "parsed ''1.1.1.1'' = Some (IPv4Network 0x01010101 32)"
  "parsed ''bad-token'' = None" "malformed ''bad-token''"
  "parsed ''2.2.2.2/24'' = Some (IPv4Network 0x02020200 24)"
  "\<not> malformed ''1.1.1.1''" "\<not> malformed ''2.2.2.2/24''"
  by (simp_all add: malformed_def load_eval text_eval ip_eval)

theorem load_blocklist_skips_malformed_witness:
  "content (one_file ''../blocklists/list.txt'' three_lines)
     (path (one_file ''../blocklists/list.txt'' three_lines)
        (blocklist_dir (init ''../blocklists'')) ''list.txt'') = Some three_lines
   \<and> load_blocklist (one_file ''../blocklists/list.txt'' three_lines) (init ''../blocklists'')
        ''list.txt''
       = Inr ((2, [''Warning: Invalid IP at line 2: bad-token - '' @ repr ''bad-token''
                   @ '' does not appear to be an IPv4 or IPv6 network'']),
              \<lparr>blocklist_dir = ''../blocklists'',
               blocked_ips = [IPv4Network 0x01010101 32, IPv4Network 0x02020200 24]\<rparr>)"
proof -
  have c: "content (one_file ''../blocklists/list.txt'' three_lines)
     (path (one_file ''../blocklists/list.txt'' three_lines)
        (blocklist_dir (init ''../blocklists'')) ''list.txt'') = Some three_lines"
    by (simp add: one_file_def init_def)
  have n: "length (filter (\<lambda>raw. parsed raw \<noteq> None) three_lines) = 2"
    by (simp add: three_lines_def load_three_lines_parts)
  have w: "map warning (filter (\<lambda>nl. malformed (snd nl)) (enumerate 1 three_lines))
             = [''Warning: Invalid IP at line 2: bad-token - '' @ repr ''bad-token''
                @ '' does not appear to be an IPv4 or IPv6 network'']"
    by (simp add: three_lines_def load_three_lines_parts warning_def strip_def isspace_def
          ord_def str_nat.simps digit_char_def)
  have i: "(init ''../blocklists'')\<lparr>blocked_ips := insert_all (List.map_filter parsed three_lines)
               (blocked_ips (init ''../blocklists''))\<rparr>
           = \<lparr>blocklist_dir = ''../blocklists'',
               blocked_ips = [IPv4Network 0x01010101 32, IPv4Network 0x02020200 24]\<rparr>"
    by (simp add: three_lines_def load_three_lines_parts List.map_filter_simps insert_all_def
          set_add_def init_def)
  from load_blocklist_skips_malformed [OF c] have
    "load_blocklist (one_file ''../blocklists/list.txt'' three_lines) (init ''../blocklists'')
        ''list.txt''
       = Inr ((2, [''Warning: Invalid IP at line 2: bad-token - '' @ repr ''bad-token''
                   @ '' does not appear to be an IPv4 or IPv6 network'']),
              \<lparr>blocklist_dir = ''../blocklists'',
               blocked_ips = [IPv4Network 0x01010101 32, IPv4Network 0x02020200 24]\<rparr>)"
    unfolding n w i by (rule conjunct1)
  with c show ?thesis by (rule conjI)
qed

section \<open>Exporting\<close>

lemmas sort_eval = ip_lt_def network_lt_def sort_networks_def

lemma sort_ten_nets:
  "sort_networks ten_nets = Inr [IPv4Network 0x0A000000 8, IPv4Network 0x0A010203 32]"
  by (simp add: ten_nets_def sort_eval ip_eval)

text \<open>
  Outside its five formats \<^verbatim>\<open>export_to_format\<close> has no branch: whatever the set, it
  writes the empty text and prints the same line as after an export.
\<close>

lemma export_outside_choices:
  assumes "format_type \<notin> set format_choices" and "writable fs output_file"
    and "sort_networks self = Inr ns"
  shows "export_to_format fs self output_file format_type =
           Inr ([], ''Exported '' @ str_nat (length (blocked_ips self)) @ '' entries to ''
                    @ output_file @ '' ('' @ format_type @ '' format)'')"
  using assms by (simp add: export_to_format_def format_choices_def)

text \<open>
  C3: the code at a format outside the enumeration. \<^verbatim>\<open>export_to_format\<close> with the
  format \<^verbatim>\<open>xml\<close>, on a set of two entries, opens the file, writes nothing and prints
  that two entries were exported: no error reaches the caller.
\<close>

theorem export_unknown_format_silent:
  "export_to_format (one_file ''../blocklists/list.txt'' []) ten_nets ''out.txt'' ''xml''
     = Inr ([], ''Exported 2 entries to out.txt (xml format)'')
   \<and> ''xml'' \<notin> set format_choices"
proof -
  have "str_nat (length (blocked_ips ten_nets)) = ''2''"
    by (simp add: ten_nets_def text_eval)
  then show ?thesis
    by (simp add: export_to_format_def sort_ten_nets one_file_def format_choices_def)
qed

subsection \<open>The order of the export\<close>

lemma drop_bit_ALL_ONES: "drop_bit p (ALL_ONES :: 'a::len word) = mask (LENGTH('a) - p)"
  unfolding ALL_ONES_def
  by (rule bit_word_eqI) (auto simp: bit_simps)

lemma ip_int_from_prefix_not_mask:
  "(ip_int_from_prefix p :: 'a::len word) = NOT (mask (LENGTH('a) - p))"
  unfolding ip_int_from_prefix_def drop_bit_ALL_ONES
  unfolding ALL_ONES_def
  by (rule bit_word_eqI) (auto simp: bit_simps)

lemma netmask_mono:
  assumes "p \<le> q"
  shows "(ip_int_from_prefix p :: 'a::len word) \<le> ip_int_from_prefix q"
proof -
  have "(ip_int_from_prefix p :: 'a word) AND ip_int_from_prefix q = ip_int_from_prefix p"
    unfolding ip_int_from_prefix_not_mask using assms
    by (intro bit_word_eqI) (auto simp: bit_simps)
  then show ?thesis by (metis word_and_le1)
qed

lemma netmask_inj:
  assumes "p \<le> LENGTH('a::len)" "q \<le> LENGTH('a)"
    and eq: "(ip_int_from_prefix p :: 'a word) = ip_int_from_prefix q"
  shows "p = q"
proof (rule ccontr)
  assume ne: "p \<noteq> q"
  define j where "j = LENGTH('a) - max p q"
  have j: "j < LENGTH('a)" "LENGTH('a) - max p q \<le> j" "j < LENGTH('a) - min p q"
    using assms ne by (auto simp: j_def)
  have "bit (ip_int_from_prefix (max p q) :: 'a word) j"
    unfolding ip_int_from_prefix_not_mask using j by (simp add: bit_simps)
  moreover have "\<not> bit (ip_int_from_prefix (min p q) :: 'a word) j"
    unfolding ip_int_from_prefix_not_mask using j by (simp add: bit_simps)
  ultimately show False using eq by (cases "p \<le> q") (simp_all add: max_def min_def)
qed

lemma netmask_le_iff:
  assumes "p \<le> LENGTH('a::len)" "q \<le> LENGTH('a)"
  shows "(ip_int_from_prefix p :: 'a word) \<le> ip_int_from_prefix q \<longleftrightarrow> p \<le> q"
proof
  assume le: "(ip_int_from_prefix p :: 'a word) \<le> ip_int_from_prefix q"
  show "p \<le> q"
  proof (rule ccontr)
    assume "\<not> p \<le> q"
    then have "q \<le> p" "p \<noteq> q" by auto
    from le netmask_mono [OF this(1)] have "(ip_int_from_prefix p :: 'a word) = ip_int_from_prefix q"
      by (rule antisym)
    with netmask_inj [OF assms] \<open>p \<noteq> q\<close> show False by blast
  qed
qed (rule netmask_mono)

lemma version_cases: "version n = 4 \<or> version n = 6"
  by (cases n) (simp_all add: version_def)





text \<open>
  Between two entries of one family whose zones agree, \<^verbatim>\<open><\<close> is the order of the
  pairs of address and netmask.
\<close>

lemma zones_agree_subset: "zones_agree S \<Longrightarrow> T \<subseteq> S \<Longrightarrow> zones_agree T"
  unfolding zones_agree_def by blast

lemma zones_agreeD:
  "zones_agree S \<Longrightarrow> a \<in> S \<Longrightarrow> b \<in> S \<Longrightarrow> version a = version b \<Longrightarrow> base a = base b
     \<Longrightarrow> zone a = zone b"
  unfolding zones_agree_def by blast

lemma network_lt_net_key:
  "version a = version b \<Longrightarrow> (base a = base b \<longrightarrow> zone a = zone b) \<Longrightarrow>
     network_lt a b = Inr (net_key a < net_key b)"
  by (cases a; cases b)
     (auto simp: network_lt_def ip_lt_def version_def network_address_def netmask_def net_key_def
        base_def zone_def word_less_nat_alt less_prod_def word_unat_eq_iff)

lemma insort_lt_insort_key:
  "\<forall>y\<in>set ys. version y = version x \<and> (base y = base x \<longrightarrow> zone y = zone x) \<Longrightarrow>
     insort_lt network_lt x ys = Inr (insort_key net_key x ys)"
  by (induction ys) (auto simp: network_lt_net_key not_le dest: leD)

lemma sorted_py_sort_key:
  "\<forall>x\<in>set xs. version x = v \<Longrightarrow> zones_agree (set xs) \<Longrightarrow>
     sorted_py network_lt xs = Inr (sort_key net_key xs)"
proof (induction xs)
  case Nil
  then show ?case by simp
next
  case (Cons x xs)
  from Cons.prems(2) have "zones_agree (set xs)"
    by (rule zones_agree_subset) auto
  with Cons have ih: "sorted_py network_lt xs = Inr (sort_key net_key xs)" by simp
  have "\<forall>y\<in>set (sort_key net_key xs).
          version y = version x \<and> (base y = base x \<longrightarrow> zone y = zone x)"
    using Cons.prems by (auto dest: zones_agreeD)
  from insort_lt_insort_key [OF this] ih show ?case by simp
qed

lemma sort_networks_sort_key:
  assumes "zones_agree (set (blocked_ips self))"
  shows "sort_networks self =
     Inr (sort_key net_key (filter (\<lambda>n. version n = 4) (blocked_ips self))
          @ sort_key net_key (filter (\<lambda>n. version n = 6) (blocked_ips self)))"
proof -
  have "zones_agree (set (filter (\<lambda>n. version n = 4) (blocked_ips self)))"
    "zones_agree (set (filter (\<lambda>n. version n = 6) (blocked_ips self)))"
    using assms by (auto intro: zones_agree_subset)
  then show ?thesis
    by (simp add: sort_networks_def sorted_py_sort_key [where v = 4]
          sorted_py_sort_key [where v = 6])
qed

lemma net_key_le_iff:
  assumes "valid_network a" "valid_network b" "version a = version b"
  shows "net_key a \<le> net_key b \<longleftrightarrow> (base a, prefixlen a) \<le> (base b, prefixlen b)"
  using assms
  by (cases a; cases b)
     (auto simp: valid_network_def max_prefixlen_def prefixlen_def version_def net_key_def base_def
        less_eq_prod_def word_le_nat_alt [symmetric] netmask_le_iff word_unat_eq_iff)

lemma net_key_inj:
  assumes "valid_network a" "valid_network b" "version a = version b" "net_key a = net_key b"
    and "base a = base b \<longrightarrow> zone a = zone b"
  shows "a = b"
proof (cases a)
  case a: (IPv4Network x p)
  with assms(3) obtain y q where b: "b = IPv4Network y q"
    by (cases b) (auto simp: version_def)
  from assms(4) a b have "x = y" "(ip_int_from_prefix p :: 32 word) = ip_int_from_prefix q"
    by (simp_all add: net_key_def word_unat_eq_iff)
  moreover from assms(1,2) a b have "p \<le> LENGTH(32)" "q \<le> LENGTH(32)"
    by (simp_all add: valid_network_def max_prefixlen_def prefixlen_def)
  ultimately show ?thesis using a b netmask_inj by blast
next
  case a: (IPv6Network x z p)
  with assms(3) obtain y w q where b: "b = IPv6Network y w q"
    by (cases b) (auto simp: version_def)
  from assms(4) a b have xy: "x = y"
    and "(ip_int_from_prefix p :: 128 word) = ip_int_from_prefix q"
    by (simp_all add: net_key_def word_unat_eq_iff)
  moreover from assms(1,2) a b have "p \<le> LENGTH(128)" "q \<le> LENGTH(128)"
    by (simp_all add: valid_network_def max_prefixlen_def prefixlen_def)
  moreover from assms(5) a b xy have "z = w"
    by (simp add: base_def zone_def)
  ultimately show ?thesis using a b netmask_inj by blast
qed

lemma net_key_base: "version a = version b \<Longrightarrow> net_key a = net_key b \<Longrightarrow> base a = base b"
  by (cases a; cases b) (auto simp: net_key_def base_def version_def)

lemma sorted_entry_key_part:
  assumes "\<forall>n\<in>set xs. valid_network n \<and> version n = v"
  shows "sorted (map entry_key (sort_key net_key xs))"
proof -
  have "sorted (map net_key (sort_key net_key xs))" by simp
  then have "sorted_wrt (\<lambda>a b. net_key a \<le> net_key b) (sort_key net_key xs)"
    by (simp add: sorted_map)
  then have "sorted_wrt (\<lambda>a b. entry_key a \<le> entry_key b) (sort_key net_key xs)"
  proof (rule sorted_wrt_mono_rel [rotated])
    fix a b assume "a \<in> set (sort_key net_key xs)" "b \<in> set (sort_key net_key xs)"
      "net_key a \<le> net_key b"
    with assms have v: "version a = version b" and "valid_network a" "valid_network b"
      and "net_key a \<le> net_key b" by auto
    then have "(base a, prefixlen a) \<le> (base b, prefixlen b)"
      by (simp only: net_key_le_iff)
    with v show "entry_key a \<le> entry_key b"
      by (simp add: entry_key_def less_eq_prod_def)
  qed
  then show ?thesis by (simp add: sorted_map)
qed

lemma sorted_entry_key_all:
  assumes "\<forall>n\<in>set ips. valid_network n"
  shows "sorted (map entry_key
           (sort_key net_key (filter (\<lambda>n. version n = 4) ips)
            @ sort_key net_key (filter (\<lambda>n. version n = 6) ips)))"
proof -
  have 4: "sorted (map entry_key (sort_key net_key (filter (\<lambda>n. version n = 4) ips)))"
    using assms by (intro sorted_entry_key_part [where v = 4]) auto
  have 6: "sorted (map entry_key (sort_key net_key (filter (\<lambda>n. version n = 6) ips)))"
    using assms by (intro sorted_entry_key_part [where v = 6]) auto
  show ?thesis
    using 4 6 by (auto simp: sorted_append entry_key_def less_eq_prod_def)
qed

lemma sort_key_set_unique:
  assumes "distinct xs" "distinct ys" "set xs = set ys"
    "\<forall>n\<in>set xs. valid_network n \<and> version n = v" "zones_agree (set xs)"
  shows "sort_key net_key xs = sort_key net_key ys"
proof -
  have inj: "inj_on net_key (set xs \<union> set ys)"
  proof (rule inj_onI)
    fix a b assume ab: "a \<in> set xs \<union> set ys" "b \<in> set xs \<union> set ys" "net_key a = net_key b"
    with assms(3,4) have m: "a \<in> set xs" "b \<in> set xs"
      and v: "valid_network a" "valid_network b" "version a = version b" by auto
    from zones_agreeD [OF assms(5) m v(3)] have "base a = base b \<longrightarrow> zone a = zone b" by simp
    with v ab(3) show "a = b" by (rule net_key_inj)
  qed
  have "map net_key (sort_key net_key xs) = map net_key (sort_key net_key ys)"
  proof (rule sorted_distinct_set_unique)
    show "distinct (map net_key (sort_key net_key xs))"
      using assms inj by (simp add: distinct_map inj_on_Un)
    show "distinct (map net_key (sort_key net_key ys))"
      using assms inj by (simp add: distinct_map inj_on_Un)
  qed (use assms in simp_all)
  moreover have "inj_on net_key (set (sort_key net_key xs) \<union> set (sort_key net_key ys))"
    using inj by simp
  ultimately show ?thesis by (rule map_inj_on)
qed

text \<open>
  Two orders of one set of valid entries whose zones agree are sorted into one
  sequence.
\<close>

lemma sort_networks_same_set:
  assumes "set ips1 = set ips2" "distinct ips1" "distinct ips2"
    and "\<forall>e\<in>set ips1. valid_network e" and "zones_agree (set ips1)"
  shows "\<exists>out. sort_networks \<lparr>blocklist_dir = d1, blocked_ips = ips1\<rparr> = Inr out
           \<and> sort_networks \<lparr>blocklist_dir = d2, blocked_ips = ips2\<rparr> = Inr out
           \<and> sorted (map entry_key out) \<and> distinct out \<and> set out = set ips1"
proof -
  let ?out = "sort_key net_key (filter (\<lambda>n. version n = 4) ips1)
              @ sort_key net_key (filter (\<lambda>n. version n = 6) ips1)"
  have z4: "zones_agree (set (filter (\<lambda>n. version n = 4) ips1))"
    and z6: "zones_agree (set (filter (\<lambda>n. version n = 6) ips1))"
    using assms(5) by (auto intro: zones_agree_subset)
  have e4: "sort_key net_key (filter (\<lambda>n. version n = 4) ips1)
              = sort_key net_key (filter (\<lambda>n. version n = 4) ips2)"
    using assms(1-4) z4 by (intro sort_key_set_unique [where v = 4]) auto
  have e6: "sort_key net_key (filter (\<lambda>n. version n = 6) ips1)
              = sort_key net_key (filter (\<lambda>n. version n = 6) ips2)"
    using assms(1-4) z6 by (intro sort_key_set_unique [where v = 6]) auto
  have "sort_networks \<lparr>blocklist_dir = d1, blocked_ips = ips1\<rparr> = Inr ?out"
    using assms(5) by (simp add: sort_networks_sort_key)
  moreover have "sort_networks \<lparr>blocklist_dir = d2, blocked_ips = ips2\<rparr> = Inr ?out"
    using assms(1,5) by (simp add: sort_networks_sort_key e4 e6)
  moreover have "sorted (map entry_key ?out)"
    using assms(4) by (intro sorted_entry_key_all) simp
  moreover have "distinct ?out" using assms(2) by (auto simp: version_def)
  moreover have "set ?out = set ips1" using version_cases by auto
  ultimately show ?thesis by blast
qed





text \<open>
  The same for files: two files with the same lines in two orders, loaded into an
  empty manager, give the same sorted sequence when the zones of the entries agree.
\<close>

lemma mset_map_filter: "mset xs = mset ys \<Longrightarrow> mset (List.map_filter g xs) = mset (List.map_filter g ys)"
  by (simp add: List.map_filter_def)

lemma load_permuted_files:
  assumes "mset f1 = mset f2"
    and "load_lines k1 f1 (0, [], []) = Inr (c1, o1, ips1)"
    and "load_lines k2 f2 (0, [], []) = Inr (c2, o2, ips2)"
    and "zones_agree (set ips1)"
  shows "\<exists>out. sort_networks \<lparr>blocklist_dir = d1, blocked_ips = ips1\<rparr> = Inr out
           \<and> sort_networks \<lparr>blocklist_dir = d2, blocked_ips = ips2\<rparr> = Inr out
           \<and> sorted (map entry_key out)"
proof -
  have i: "ips1 = insert_all (List.map_filter parsed f1) []"
    "ips2 = insert_all (List.map_filter parsed f2) []"
    using assms(2,3) by (simp_all add: load_lines_result)
  have "set (List.map_filter parsed f1) = set (List.map_filter parsed f2)"
    using mset_map_filter [OF assms(1)] by (rule mset_eq_setD)
  then have s: "set ips1 = set ips2" unfolding i by (simp add: insert_all_set)
  have d: "distinct ips1" "distinct ips2" unfolding i by (simp_all add: insert_all_distinct)
  have v: "\<forall>e\<in>set ips1. valid_network e"
    unfolding i by (auto simp: insert_all_set set_map_filter dest: parsed_valid)
  from sort_networks_same_set [OF s d v assms(4), of d1 d2] show ?thesis by blast
qed

subsection \<open>The JSON export\<close>






end
